theory Spec2Isabelle
  imports Complex_Main "HOL-Library.Sublist" "HOL-Library.Log_Nat"
begin

section \<open>Data model\<close>

text \<open>
  The type declarations of the repository (\<^verbatim>\<open>types.ts\<close>) are not among the source
  files, so the records below hold exactly the fields that the two pages read or write.
  A field that the pages guard against being absent (\<^verbatim>\<open>q.timesAnswered || 0\<close>,
  \<^verbatim>\<open>question.answers && Array.isArray(question.answers)\<close>,
  \<^verbatim>\<open>answer.isCorrect === true\<close>) is an option, \<open>None\<close> standing for an absent
  (or otherwise unusable) value. Counters are natural numbers: the JavaScript numbers that
  hold them are assumed to be non-negative integers below \<open>2 ^ 53\<close>, where the
  additions and subtractions of the pages are exact.
\<close>

record AnswerOption =
  answer :: string
  isCorrect :: "bool option"

text \<open>The field \<open>q_id\<close> is the source's \<^verbatim>\<open>_id\<close>.\<close>

record Question =
  q_id :: string
  question :: string
  questionType :: string
  questionCategory :: string
  questionLevel :: string
  timesAnswered :: "nat option"
  timesSkipped :: "nat option"
  answers :: "AnswerOption list option"

text \<open>\<^verbatim>\<open>x || 0\<close> on a counter: an absent counter and the counter \<open>0\<close> both give \<open>0\<close>.\<close>

definition orZero :: "nat option \<Rightarrow> nat" where
  "orZero x = (case x of None \<Rightarrow> 0 | Some n \<Rightarrow> n)"

section \<open>Analytics page: totals\<close>

definition LEVELS :: "string list" where
  "LEVELS = [''Beginner'', ''Intermediate'', ''Advanced'']"

text \<open>\<^verbatim>\<open>questions.reduce((sum, q) => sum + (q.timesAnswered || 0), 0)\<close>\<close>

definition totalAnswered :: "Question list \<Rightarrow> nat" where
  "totalAnswered questions = foldl (\<lambda>sum q. sum + orZero (timesAnswered q)) 0 questions"

definition totalSkipped :: "Question list \<Rightarrow> nat" where
  "totalSkipped questions = foldl (\<lambda>sum q. sum + orZero (timesSkipped q)) 0 questions"


definition levelAnswerCounts :: "Question list \<Rightarrow> nat list" where
  "levelAnswerCounts questions =
     map (\<lambda>level.
            foldl (\<lambda>sum q. sum + orZero (timesAnswered q)) 0
              (filter (\<lambda>q. questionLevel q = level) questions))
         LEVELS"

section \<open>Analytics page: response distribution\<close>

text \<open>
  The two counters \<^verbatim>\<open>correctResponses\<close> and \<^verbatim>\<open>incorrectResponses\<close> are
  mutated by two nested \<^verbatim>\<open>forEach\<close> loops; the model threads the pair through them.
\<close>

definition countAnswer :: "AnswerOption \<Rightarrow> nat \<times> nat \<Rightarrow> nat \<times> nat" where
  "countAnswer a = (\<lambda>(correct, incorrect).
     if isCorrect a = Some True then (correct + 1, incorrect)
     else if isCorrect a = Some False then (correct, incorrect + 1)
     else (correct, incorrect))"

definition countQuestion :: "Question \<Rightarrow> nat \<times> nat \<Rightarrow> nat \<times> nat" where
  "countQuestion q acc = (case answers q of None \<Rightarrow> acc | Some opts \<Rightarrow> fold countAnswer opts acc)"

definition inputQuestionsForPie :: "Question list \<Rightarrow> Question list" where
  "inputQuestionsForPie questions = filter (\<lambda>q. questionType q = ''Input'') questions"

definition responseCounts :: "Question list \<Rightarrow> nat \<times> nat" where
  "responseCounts questions = fold countQuestion (inputQuestionsForPie questions) (0, 0)"

definition correctResponses :: "Question list \<Rightarrow> nat" where
  "correctResponses questions = fst (responseCounts questions)"

definition incorrectResponses :: "Question list \<Rightarrow> nat" where
  "incorrectResponses questions = snd (responseCounts questions)"

definition totalAnsweredFromInputs :: "Question list \<Rightarrow> nat" where
  "totalAnsweredFromInputs questions = correctResponses questions + incorrectResponses questions"

subsection \<open>JavaScript numbers\<close>

text \<open>
  A JavaScript number is an IEEE-754 double. A finite double is taken here as the rational
  that it denotes, and a division, a multiplication or a subtraction of the source gives
  the double nearest to the exact result, the one with the even significand at a tie.
  With 53 bits of significand, the doubles of the binade \<open>2 ^ e \<le> a < 2 ^ (e + 1)\<close> are
  the multiples of \<open>2 ^ (e - 52)\<close>. The exponent is not bounded in the model: quotients
  and products of counters below \<open>2 ^ 53\<close> are far from overflow and from the subnormal
  numbers. The source guards each of its divisions against a zero divisor.
\<close>

definition roundEven :: "rat \<Rightarrow> int" where
  "roundEven x =
     (let f = \<lfloor>x\<rfloor>; d = x - of_int f
      in if d < 1 / 2 then f else if 1 / 2 < d then f + 1 else if even f then f else f + 1)"

text \<open>The integer part of the binary logarithm of a positive rational.\<close>

definition ilog2 :: "rat \<Rightarrow> int" where
  "ilog2 a = (if 1 \<le> a then bitlen \<lfloor>a\<rfloor> - 1 else - bitlen (\<lceil>1 / a\<rceil> - 1))"

definition toDouble :: "rat \<Rightarrow> rat" where
  "toDouble x =
     (if x = 0 then 0
      else let a = \<bar>x\<bar>; p = 2 powi (ilog2 a - 52)
           in sgn x * of_int (roundEven (a / p)) * p)"

definition div_double :: "rat \<Rightarrow> rat \<Rightarrow> rat" where
  "div_double x y = toDouble (x / y)"

definition mul_double :: "rat \<Rightarrow> rat \<Rightarrow> rat" where
  "mul_double x y = toDouble (x * y)"


text \<open>
  \<^verbatim>\<open>Math.round\<close> gives the integer nearest to the value of its argument, the larger
  one at a tie.
\<close>

definition Math_round :: "rat \<Rightarrow> int" where
  "Math_round x = \<lfloor>x + 1 / 2\<rfloor>"

subsection \<open>The two outputs\<close>

definition finalCorrectResponses :: "Question list \<Rightarrow> int" where
  "finalCorrectResponses questions =
     (if totalAnsweredFromInputs questions > 0
      then Math_round
             (mul_double
                (div_double (of_nat (correctResponses questions))
                            (of_nat (totalAnsweredFromInputs questions)))
                (of_nat (totalAnswered questions)))
      else 0)"

definition finalIncorrectResponses :: "Question list \<Rightarrow> int" where
  "finalIncorrectResponses questions = int (totalAnswered questions) - finalCorrectResponses questions"

section \<open>Analytics page: skip rates\<close>

text \<open>
  \<^verbatim>\<open>x.toFixed(1)\<close> renders the integer \<open>n\<close> nearest to \<open>10 * x\<close> (the larger one
  at a tie) with a point before its last digit, after a minus sign for a negative \<open>x\<close>;
  \<open>x\<close> is the value of the double, so the nearest integer is found without a rounding
  error. The exponent form that \<^verbatim>\<open>toFixed\<close> uses from \<open>10 ^ 21\<close> on is left out, a
  percentage being near 100 at most.
\<close>

definition digitChar :: "nat \<Rightarrow> char" where
  "digitChar d = ''0123456789'' ! d"





















text \<open>The embedded answer options that the response distribution reads.\<close>

definition embeddedOptions :: "Question list \<Rightarrow> AnswerOption list" where
  "embeddedOptions questions =
     concat (map (\<lambda>q. case answers q of None \<Rightarrow> [] | Some opts \<Rightarrow> opts)
               (inputQuestionsForPie questions))"

text \<open>A question with a text, a type and two counters, for the examples below.\<close>

definition exampleQuestion :: "string \<Rightarrow> string \<Rightarrow> nat \<Rightarrow> nat \<Rightarrow> Question" where
  "exampleQuestion text type answered skipped =
     \<lparr>q_id = text, question = text, questionType = type, questionCategory = ''Grammar'',
      questionLevel = ''Beginner'', timesAnswered = Some answered, timesSkipped = Some skipped,
      answers = None\<rparr>"

section \<open>Analytics page: fetching and the view\<close>

text \<open>
  \<^verbatim>\<open>fetchAllQuestionsAndAnswersAdmin\<close> is a collaborator: its promise resolves with the
  questions and the answers, or rejects with an error whose \<^verbatim>\<open>message\<close> may be
  absent. The type of the submitted answers is a parameter.
\<close>

datatype 'a FetchOutcome =
    Resolved "Question list" "'a list"
  | Rejected "string option"

record 'a PageState =
  questions :: "Question list"
  submittedAnswers :: "'a list"
  loading :: bool
  err :: "string option"
  isEmpty :: bool

text \<open>\<^verbatim>\<open>s.includes(pat)\<close>: \<open>pat\<close> occurs in \<open>s\<close> as a contiguous, case-sensitive substring.\<close>

fun includes_js :: "string \<Rightarrow> string \<Rightarrow> bool" where
  "includes_js [] pat = (pat = [])"
| "includes_js (c # cs) pat = (prefix pat (c # cs) \<or> includes_js cs pat)"

text \<open>
  The condition of the \<^verbatim>\<open>catch\<close> block; \<^verbatim>\<open>e.message?.includes(...)\<close> is
  \<^verbatim>\<open>undefined\<close>, hence false, for an absent message.
\<close>

definition isEmptySignal :: "string option \<Rightarrow> bool" where
  "isEmptySignal message =
     (case message of
        None \<Rightarrow> False
      | Some m \<Rightarrow> includes_js m ''404'' \<or> includes_js m ''No questions'' \<or> includes_js m ''empty'')"

definition noQuestionsMessage :: string where
  "noQuestionsMessage =
     ''No questions found in the database. Please add some questions first in the admin dashboard.''"

text \<open>The state after \<^verbatim>\<open>handleRefresh\<close> has run to its end, for the outcome of the fetch.\<close>

definition handleRefresh :: "'a FetchOutcome \<Rightarrow> 'a PageState \<Rightarrow> 'a PageState" where
  "handleRefresh outcome s =
     (let s1 = s\<lparr>loading := True, err := None, isEmpty := False\<rparr>;
          s2 = (case outcome of
                  Resolved fetchedQuestions fetchedAnswers \<Rightarrow>
                    s1\<lparr>questions := fetchedQuestions, submittedAnswers := fetchedAnswers,
                       isEmpty := (length fetchedQuestions = 0)\<rparr>
                | Rejected message \<Rightarrow>
                    if isEmptySignal message
                    then s1\<lparr>isEmpty := True, questions := [], submittedAnswers := [],
                            err := Some noQuestionsMessage\<rparr>
                    else s1\<lparr>err := message\<rparr>)
      in s2\<lparr>loading := False\<rparr>)"

text \<open>
  \<^verbatim>\<open>fetchData\<close>, the fetch of the mount effect, repeats the body of
  \<^verbatim>\<open>handleRefresh\<close>; it runs only when the stored admin flag is set.
\<close>

definition fetchData :: "'a FetchOutcome \<Rightarrow> 'a PageState \<Rightarrow> 'a PageState" where
  "fetchData outcome s =
     (let s1 = s\<lparr>loading := True, err := None, isEmpty := False\<rparr>;
          s2 = (case outcome of
                  Resolved fetchedQuestions fetchedAnswers \<Rightarrow>
                    s1\<lparr>questions := fetchedQuestions, submittedAnswers := fetchedAnswers,
                       isEmpty := (length fetchedQuestions = 0)\<rparr>
                | Rejected message \<Rightarrow>
                    if isEmptySignal message
                    then s1\<lparr>isEmpty := True, questions := [], submittedAnswers := [],
                            err := Some noQuestionsMessage\<rparr>
                    else s1\<lparr>err := message\<rparr>)
      in s2\<lparr>loading := False\<rparr>)"

definition initialPageState :: "'a PageState" where
  "initialPageState =
     \<lparr>questions = [], submittedAnswers = [], loading = True, err = None, isEmpty = False\<rparr>"

text \<open>
  What the component renders: the branches of the source in their order. A string is
  truthy when it is present and not empty.
\<close>

datatype View = LoadingView | EmptyView | ErrorView string | ReadyView

definition render :: "'a PageState \<Rightarrow> View" where
  "render s =
     (if loading s then LoadingView
      else if isEmpty s then EmptyView
      else (case err s of
              Some m \<Rightarrow> if m \<noteq> [] \<and> \<not> isEmpty s then ErrorView m else ReadyView
            | None \<Rightarrow> ReadyView))"

section \<open>Survey builder\<close>

datatype Level = Beginner | Intermediate | Advanced

definition SURVEY_LEVELS :: "Level list" where
  "SURVEY_LEVELS = [Beginner, Intermediate, Advanced]"

fun levelName :: "Level \<Rightarrow> string" where
  "levelName Beginner = ''Beginner''"
| "levelName Intermediate = ''Intermediate''"
| "levelName Advanced = ''Advanced''"

text \<open>\<^verbatim>\<open>LEVELS.includes(value as Level)\<close>, with the level it names.\<close>

definition asLevel :: "string \<Rightarrow> Level option" where
  "asLevel v = find (\<lambda>lvl. levelName lvl = v) SURVEY_LEVELS"

text \<open>\<^verbatim>\<open>QMap = Record<Level, Question[]>\<close>: one list for each of the three keys.\<close>

type_synonym QMap = "Level \<Rightarrow> Question list"

text \<open>The empty question that the page writes out in five places.\<close>

definition placeholder :: "Level \<Rightarrow> Question" where
  "placeholder lvl =
     \<lparr>q_id = [], question = [], questionType = ''Input'', questionCategory = [],
      questionLevel = levelName lvl, timesAnswered = Some 0, timesSkipped = None,
      answers = None\<rparr>"

record SurveyState =
  questionsByLevel :: QMap
  currentTab :: Level
  currentIndex :: nat
  levelToDelete :: Level
  showDeleteDialog :: bool
  showUIImmediately :: bool

text \<open>The calls to the persistence service that a handler makes, in order.\<close>

datatype ApiCall =
    CreateQuestions "Question list"
  | UpdateQuestions "Question list"
  | DeleteQuestions "Question list"

datatype js_error = TypeError

definition emptyMap :: QMap where
  "emptyMap = (\<lambda>lvl. [])"

text \<open>The state of the first render, and the effect that initialises it.\<close>

definition initialSurveyState :: SurveyState where
  "initialSurveyState =
     \<lparr>questionsByLevel = emptyMap, currentTab = Beginner, currentIndex = 0,
      levelToDelete = Beginner, showDeleteDialog = False, showUIImmediately = False\<rparr>"

definition initEffect :: "SurveyState \<Rightarrow> SurveyState" where
  "initEffect s =
     (if \<not> showUIImmediately s
      then s\<lparr>questionsByLevel := foldl (\<lambda>m lvl. m(lvl := [placeholder lvl])) emptyMap SURVEY_LEVELS,
             showUIImmediately := True\<rparr>
      else s)"

text \<open>The effect that populates the working set when the fetched questions arrive.\<close>

definition populateEffect :: "Question list \<Rightarrow> SurveyState \<Rightarrow> SurveyState" where
  "populateEffect fetched s =
     (if \<not> showUIImmediately s \<or> length fetched = 0 then s
      else
        let map1 = foldl (\<lambda>m q. case asLevel (questionLevel q) of
                                   Some lvl \<Rightarrow> m(lvl := m lvl @ [q])
                                 | None \<Rightarrow> m)
                         emptyMap fetched;
            map2 = foldl (\<lambda>m lvl. if length (m lvl) = 0 then m(lvl := m lvl @ [placeholder lvl]) else m)
                         map1 SURVEY_LEVELS
        in s\<lparr>questionsByLevel := map2\<rparr>)"

text \<open>\<^verbatim>\<open>list.filter((_, i) => i !== index)\<close>\<close>

definition removeAt :: "nat \<Rightarrow> 'a list \<Rightarrow> 'a list" where
  "removeAt index list = map snd (filter (\<lambda>(i, _). i \<noteq> index) (enumerate 0 list))"

text \<open>
  \<^verbatim>\<open>onDeleteCurrent\<close>. When \<^verbatim>\<open>currentIndex\<close> is past the end of the list,
  \<^verbatim>\<open>toDelete\<close> is \<^verbatim>\<open>undefined\<close> and reading its \<^verbatim>\<open>_id\<close> throws; the state is
  then as before. The awaited call to \<^verbatim>\<open>deleteQuestions\<close> is taken to resolve.
\<close>

definition onDeleteCurrent :: "SurveyState \<Rightarrow> js_error + (SurveyState \<times> ApiCall list)" where
  "onDeleteCurrent s =
     (let list = questionsByLevel s (currentTab s)
      in if length list \<le> 1 then Inr (s, [])
         else if length list \<le> currentIndex s then Inl TypeError
         else
           let toDelete = list ! currentIndex s;
               calls = (if q_id toDelete \<noteq> [] then [DeleteQuestions [toDelete]] else []);
               newList = removeAt (currentIndex s) list
           in Inr (s\<lparr>questionsByLevel := (questionsByLevel s)(currentTab s := newList),
                     currentIndex := nat (max (int (currentIndex s) - 1) 0)\<rparr>,
                   calls))"

definition onDeleteAllQuestions :: "Level \<Rightarrow> SurveyState \<Rightarrow> SurveyState" where
  "onDeleteAllQuestions level s = s\<lparr>levelToDelete := level, showDeleteDialog := True\<rparr>"

definition confirmDeleteAllQuestions :: "SurveyState \<Rightarrow> SurveyState \<times> ApiCall list" where
  "confirmDeleteAllQuestions s =
     (let list = questionsByLevel s (levelToDelete s);
          toDelete = filter (\<lambda>q. q_id q \<noteq> []) list;
          calls = (if length toDelete \<noteq> 0 then [DeleteQuestions toDelete] else [])
      in (s\<lparr>questionsByLevel := (questionsByLevel s)(levelToDelete s := [placeholder (levelToDelete s)]),
            currentIndex := 0, showDeleteDialog := False\<rparr>,
          calls))"

text \<open>
  \<^verbatim>\<open>onUpdateQuestion(field, value)\<close> for the four fields that hold a string. The two
  calls of \<^verbatim>\<open>updateTabQuestions\<close> in the branch of a level are functional updates
  applied one after the other; the second reads the list of the new level from the
  \<^verbatim>\<open>questionsByLevel\<close> of the render, not from the result of the first. When
  \<^verbatim>\<open>currentIndex\<close> is past the end of the list, \<^verbatim>\<open>q\<close> is \<^verbatim>\<open>undefined\<close> and the
  handler stores an object without the fields of a question: the result is \<open>None\<close>,
  since \<open>Question\<close> has no such value. The call \<^verbatim>\<open>setError("")\<close>, on the state of
  the hook, is left out.
\<close>

datatype Field = F_question | F_questionType | F_questionCategory | F_questionLevel

definition setField :: "Field \<Rightarrow> string \<Rightarrow> Question \<Rightarrow> Question" where
  "setField field v q =
     (case field of
        F_question \<Rightarrow> q\<lparr>question := v\<rparr>
      | F_questionType \<Rightarrow>
          if v = ''Input'' \<and> answers q \<noteq> None
          then q\<lparr>answers := None, questionType := v\<rparr>
          else q\<lparr>questionType := v\<rparr>
      | F_questionCategory \<Rightarrow> q\<lparr>questionCategory := v\<rparr>
      | F_questionLevel \<Rightarrow> q\<lparr>questionLevel := v\<rparr>)"

definition onUpdateQuestion :: "Field \<Rightarrow> string \<Rightarrow> SurveyState \<Rightarrow> SurveyState option" where
  "onUpdateQuestion field v s =
     (let list = questionsByLevel s (currentTab s)
      in if length list \<le> currentIndex s then None
         else
           let q = list ! currentIndex s
           in (case (if field = F_questionLevel then asLevel v else None) of
                 Some newLevel \<Rightarrow>
                   let updated = q\<lparr>questionLevel := levelName newLevel\<rparr>;
                       oldList = removeAt (currentIndex s) list
                   in Some (s\<lparr>questionsByLevel :=
                                ((questionsByLevel s)(currentTab s := oldList))
                                  (newLevel := questionsByLevel s newLevel @ [updated]),
                              currentTab := newLevel,
                              currentIndex := length (questionsByLevel s newLevel)\<rparr>)
               | None \<Rightarrow>
                   Some (s\<lparr>questionsByLevel :=
                             (questionsByLevel s)(currentTab s := list[currentIndex s := setField field v q])\<rparr>)))"

text \<open>
  \<^verbatim>\<open>String.prototype.trim\<close> on characters read as code points below 256: the white
  space and line terminators of JavaScript in that range.
\<close>

definition isWhiteSpace :: "char \<Rightarrow> bool" where
  "isWhiteSpace c = (c \<in> set [CHR 0x09, CHR 0x0A, CHR 0x0B, CHR 0x0C, CHR 0x0D, CHR 0x20, CHR 0xA0])"

definition trim :: "string \<Rightarrow> string" where
  "trim s = rev (dropWhile isWhiteSpace (rev (dropWhile isWhiteSpace s)))"

text \<open>The filter of \<^verbatim>\<open>handleCreateNew\<close> and \<^verbatim>\<open>handleUpdate\<close>: all three strings truthy.\<close>

definition isComplete :: "Question \<Rightarrow> bool" where
  "isComplete q = (trim (question q) \<noteq> [] \<and> questionCategory q \<noteq> [] \<and> questionLevel q \<noteq> [])"

text \<open>The two handlers, given the answer to \<^verbatim>\<open>window.confirm\<close>.\<close>

definition handleCreateNew :: "bool \<Rightarrow> SurveyState \<Rightarrow> ApiCall list" where
  "handleCreateNew confirmed s =
     (if confirmed
      then let allQs = filter isComplete (concat (map (questionsByLevel s) SURVEY_LEVELS))
           in [CreateQuestions allQs]
      else [])"

definition handleUpdate :: "bool \<Rightarrow> SurveyState \<Rightarrow> ApiCall list" where
  "handleUpdate confirmed s =
     (if confirmed
      then let allQs = filter isComplete (concat (map (questionsByLevel s) SURVEY_LEVELS))
           in [UpdateQuestions allQs]
      else [])"

text \<open>The invariant of the working set: no level without an entry.\<close>

definition everyLevelHasEntry :: "QMap \<Rightarrow> bool" where
  "everyLevelHasEntry m = list_all (\<lambda>lvl. m lvl \<noteq> []) SURVEY_LEVELS"

fun callArgument :: "ApiCall \<Rightarrow> Question list" where
  "callArgument (CreateQuestions qs) = qs"
| "callArgument (UpdateQuestions qs) = qs"
| "callArgument (DeleteQuestions qs) = qs"

section \<open>Totals as sums\<close>

lemma foldl_add_sum_list: "foldl (\<lambda>sum q. sum + f q) (a::nat) qs = a + sum_list (map f qs)"
  by (induction qs arbitrary: a) simp_all

lemma totalAnswered_sum: "totalAnswered qs = sum_list (map (\<lambda>q. orZero (timesAnswered q)) qs)"
  by (simp add: totalAnswered_def foldl_add_sum_list)

lemma totalSkipped_sum: "totalSkipped qs = sum_list (map (\<lambda>q. orZero (timesSkipped q)) qs)"
  by (simp add: totalSkipped_def foldl_add_sum_list)

section \<open>Doubles\<close>

lemma floor_rat_numeral: "\<lfloor>numeral a / numeral b :: rat\<rfloor> = numeral a div numeral b"
  by (metis floor_divide_of_int_eq of_int_numeral)

lemma roundEven_near: "\<bar>of_int (roundEven x) - x\<bar> \<le> 1 / 2"
proof -
  have "of_int \<lfloor>x\<rfloor> \<le> x" and "x < of_int \<lfloor>x\<rfloor> + 1" by linarith+
  then show ?thesis by (auto simp: roundEven_def Let_def)
qed

lemma ilog2_bounds:
  assumes "0 < a"
  shows "2 powi (ilog2 a) \<le> a \<and> a < 2 powi (ilog2 a + 1)"
proof (cases "1 \<le> a")
  case True
  let ?n = "\<lfloor>a\<rfloor>"
  have n: "0 < ?n" using True by simp
  have b1: "1 \<le> bitlen ?n" using n by (simp add: bitlen_alt_def)
  from bitlen_bounds[OF n] have lo: "2 ^ nat (bitlen ?n - 1) \<le> ?n" and hi: "?n < 2 ^ nat (bitlen ?n)"
    by simp_all
  have i: "ilog2 a = bitlen ?n - 1" using True by (simp add: ilog2_def)
  have p1: "(2::rat) powi (bitlen ?n - 1) = of_int (2 ^ nat (bitlen ?n - 1))"
    using b1 by (simp add: power_int_def)
  have p2: "(2::rat) powi (bitlen ?n - 1 + 1) = of_int (2 ^ nat (bitlen ?n))"
    using b1 by (simp add: power_int_def)
  have "(of_int (2 ^ nat (bitlen ?n - 1)) :: rat) \<le> of_int ?n"
    using lo by (simp only: of_int_le_iff)
  also have "\<dots> \<le> a" by simp
  finally have l: "2 powi (ilog2 a) \<le> a" unfolding i p1 .
  have "?n + 1 \<le> 2 ^ nat (bitlen ?n)" using hi by simp
  then have "(of_int (?n + 1) :: rat) \<le> of_int (2 ^ nat (bitlen ?n))"
    by (simp only: of_int_le_iff)
  moreover have "a < of_int (?n + 1)" by linarith
  ultimately have "a < 2 powi (ilog2 a + 1)" unfolding i p2 by linarith
  with l show ?thesis by simp
next
  case False
  let ?y = "1 / a"
  let ?j = "\<lceil>?y\<rceil> - 1"
  have y1: "1 < ?y" using False assms by simp
  have j: "0 < ?j" using y1 by linarith
  have jy: "of_int ?j < ?y" by linarith
  have yj: "?y \<le> of_int (?j + 1)" by simp
  have b1: "1 \<le> bitlen ?j" using j by (simp add: bitlen_alt_def)
  from bitlen_bounds[OF j] have lo: "2 ^ nat (bitlen ?j - 1) \<le> ?j" and hi: "?j < 2 ^ nat (bitlen ?j)"
    by simp_all
  have i: "ilog2 a = - bitlen ?j" using False by (simp add: ilog2_def)
  have p1: "(2::rat) powi (- bitlen ?j) = 1 / of_int (2 ^ nat (bitlen ?j))"
    using b1 by (simp add: power_int_def field_simps)
  have p2: "(2::rat) powi (- bitlen ?j + 1) = 1 / of_int (2 ^ nat (bitlen ?j - 1))"
  proof -
    have "- bitlen ?j + 1 = - (bitlen ?j - 1)" by simp
    moreover have "(2::rat) powi (- (bitlen ?j - 1)) = 1 / of_int (2 ^ nat (bitlen ?j - 1))"
      using b1 by (simp add: power_int_minus field_simps power_int_def)
    ultimately show ?thesis by simp
  qed
  have "?j + 1 \<le> 2 ^ nat (bitlen ?j)" using hi by simp
  then have "(of_int (?j + 1) :: rat) \<le> of_int (2 ^ nat (bitlen ?j))"
    by (simp only: of_int_le_iff)
  with yj have "?y \<le> of_int (2 ^ nat (bitlen ?j))" by linarith
  then have l: "1 / of_int (2 ^ nat (bitlen ?j)) \<le> a"
    using assms by (simp add: field_simps)
  have "(of_int (2 ^ nat (bitlen ?j - 1)) :: rat) \<le> of_int ?j"
    using lo by (simp only: of_int_le_iff)
  with jy have "of_int (2 ^ nat (bitlen ?j - 1)) < ?y" by linarith
  then have u: "a < 1 / of_int (2 ^ nat (bitlen ?j - 1))"
    using assms by (simp add: field_simps)
  show ?thesis unfolding i p1 p2 using l u by simp
qed

lemma ilog2_unique:
  assumes "0 < a" and "2 powi e \<le> a" and "a < 2 powi (e + 1)"
  shows "ilog2 a = e"
proof -
  from ilog2_bounds[OF assms(1)]
  have l: "2 powi (ilog2 a) \<le> a" and u: "a < 2 powi (ilog2 a + 1)" by simp_all
  have "\<not> e < ilog2 a"
  proof
    assume "e < ilog2 a"
    then have "e + 1 \<le> ilog2 a" by simp
    then have "(2::rat) powi (e + 1) \<le> 2 powi (ilog2 a)" by (intro power_int_increasing) simp_all
    with l assms(3) show False by linarith
  qed
  moreover have "\<not> ilog2 a < e"
  proof
    assume "ilog2 a < e"
    then have "ilog2 a + 1 \<le> e" by simp
    then have "(2::rat) powi (ilog2 a + 1) \<le> 2 powi e" by (intro power_int_increasing) simp_all
    with u assms(2) show False by linarith
  qed
  ultimately show ?thesis by simp
qed

text \<open>The unit of the last place of the binade of \<open>a\<close> is at most \<open>a / 2 ^ 52\<close>.\<close>

lemma ulp_le:
  assumes "0 < a"
  shows "2 powi (ilog2 a - 52) * 2 ^ 52 \<le> a"
proof -
  have "(2::rat) powi ((ilog2 a - 52) + 52) = 2 powi (ilog2 a - 52) * 2 powi 52"
    by (rule power_int_add) simp
  then have "(2::rat) powi (ilog2 a - 52) * 2 ^ 52 = 2 powi (ilog2 a)" by simp
  then show ?thesis using ilog2_bounds[OF assms] by simp
qed

lemma toDouble_pos_eq:
  assumes "0 < a"
  shows "toDouble a = of_int (roundEven (a / 2 powi (ilog2 a - 52))) * 2 powi (ilog2 a - 52)"
  using assms by (simp add: toDouble_def Let_def)


lemma toDouble_zero: "toDouble 0 = 0"
  by (simp add: toDouble_def)

lemma toDouble_pos:
  assumes "0 < a"
  shows "0 < toDouble a"
proof -
  let ?p = "(2::rat) powi (ilog2 a - 52)"
  have p: "0 < ?p" by simp
  have "?p * 2 ^ 52 \<le> a" using assms by (rule ulp_le)
  then have "2 ^ 52 \<le> a / ?p" using p by (simp add: field_simps)
  moreover have "a / ?p - 1 / 2 \<le> of_int (roundEven (a / ?p))"
    using roundEven_near[of "a / ?p"] by linarith
  moreover have "(1::rat) \<le> 2 ^ 52" by simp
  ultimately have "(0::rat) < of_int (roundEven (a / ?p))" by linarith
  then show ?thesis unfolding toDouble_pos_eq[OF assms] using p by simp
qed


lemma toDouble_nonneg: "0 \<le> x \<Longrightarrow> 0 \<le> toDouble x"
  using toDouble_pos[of x] by (cases "x = 0") (simp_all add: toDouble_zero)



text \<open>Evaluation: the binade of a positive number fixes its double.\<close>

lemma toDouble_eval:
  assumes "0 < a" and "2 powi e \<le> a" and "a < 2 powi (e + 1)"
  shows "toDouble a = of_int (roundEven (a / 2 powi (e - 52))) * 2 powi (e - 52)"
  using toDouble_pos_eq[OF assms(1)] ilog2_unique[OF assms] by simp

text \<open>The relative error of one rounding is at most \<open>2 ^ - 53\<close>.\<close>

lemma toDouble_error:
  assumes "0 \<le> a"
  shows "\<bar>toDouble a - a\<bar> \<le> a / 2 ^ 53"
proof (cases "a = 0")
  case True
  then show ?thesis by (simp add: toDouble_zero)
next
  case False
  then have a: "0 < a" using assms by simp
  let ?p = "(2::rat) powi (ilog2 a - 52)"
  have p: "0 < ?p" by simp
  have u: "?p * 2 ^ 52 \<le> a" using a by (rule ulp_le)
  have "\<bar>toDouble a - a\<bar> = \<bar>of_int (roundEven (a / ?p)) - a / ?p\<bar> * ?p"
  proof -
    have "toDouble a - a = (of_int (roundEven (a / ?p)) - a / ?p) * ?p"
      unfolding toDouble_pos_eq[OF a] using p by (simp add: field_simps)
    then show ?thesis using p by (simp add: abs_mult)
  qed
  also have "\<dots> \<le> (1 / 2) * ?p"
    using roundEven_near[of "a / ?p"] p by (intro mult_right_mono) simp_all
  also have "\<dots> \<le> a / 2 ^ 53" using u by simp
  finally show ?thesis .
qed

text \<open>
  A quotient of two counters times a constant, in doubles, is within \<open>2 ^ - 51\<close> of the
  exact number, relatively.
\<close>

lemma mul_div_double_error:
  fixes s r :: nat and c :: rat
  assumes "0 \<le> c"
  shows "\<bar>mul_double (div_double (of_nat s) (of_nat r)) c - (of_nat s / of_nat r) * c\<bar>
           \<le> (of_nat s / of_nat r) * c / 2 ^ 51"
proof -
  let ?q = "of_nat s / of_nat r :: rat"
  let ?q' = "div_double (of_nat s) (of_nat r)"
  have q: "0 \<le> ?q" by simp
  have e1: "\<bar>?q' - ?q\<bar> \<le> ?q / 2 ^ 53"
    unfolding div_double_def using q by (rule toDouble_error)
  have q': "0 \<le> ?q'" unfolding div_double_def using q by (rule toDouble_nonneg)
  have qc: "0 \<le> ?q' * c" using q' assms by simp
  have e2: "\<bar>mul_double ?q' c - ?q' * c\<bar> \<le> ?q' * c / 2 ^ 53"
    unfolding mul_double_def using qc by (rule toDouble_error)
  have u: "?q' \<le> ?q + ?q / 2 ^ 53" using e1 by linarith
  have "?q' * c \<le> (?q + ?q / 2 ^ 53) * c" using u assms by (rule mult_right_mono)
  then have e3: "?q' * c / 2 ^ 53 \<le> (?q + ?q / 2 ^ 53) * c / 2 ^ 53"
    by (rule divide_right_mono) simp
  have "\<bar>?q' * c - ?q * c\<bar> = \<bar>?q' - ?q\<bar> * c"
  proof -
    have "?q' * c - ?q * c = (?q' - ?q) * c" by (rule left_diff_distrib[symmetric])
    then have "\<bar>?q' * c - ?q * c\<bar> = \<bar>?q' - ?q\<bar> * \<bar>c\<bar>" by (simp only: abs_mult)
    then show ?thesis using assms by (simp only: abs_of_nonneg)
  qed
  also have "\<dots> \<le> (?q / 2 ^ 53) * c" using e1 assms by (rule mult_right_mono)
  finally have e4: "\<bar>?q' * c - ?q * c\<bar> \<le> (?q / 2 ^ 53) * c" .
  have "\<bar>mul_double ?q' c - ?q * c\<bar> \<le> (?q + ?q / 2 ^ 53) * c / 2 ^ 53 + (?q / 2 ^ 53) * c"
    using e2 e3 e4 by linarith
  also have "\<dots> = ?q * c * ((2 + 1 / 2 ^ 53) / 2 ^ 53)" by (simp add: field_simps)
  also have "\<dots> \<le> ?q * c * (1 / 2 ^ 51)"
    using q assms by (intro mult_left_mono mult_nonneg_nonneg) simp_all
  finally show ?thesis by simp
qed

section \<open>Decimal strings\<close>



lemma digit_cases: "d < 10 \<Longrightarrow> d \<in> {0, 1, 2, 3, 4, 5, 6, 7, 8, 9 :: nat}"
  by auto


lemma digitChar_not_point: "d < 10 \<Longrightarrow> digitChar d \<noteq> CHR ''.''"
  using digit_cases[of d] by (auto simp: digitChar_def)














section \<open>Response distribution\<close>

lemma fold_countAnswer:
  "fold countAnswer opts (c, i) =
     (c + length (filter (\<lambda>a. isCorrect a = Some True) opts),
      i + length (filter (\<lambda>a. isCorrect a = Some False) opts))"
  by (induction opts arbitrary: c i) (simp_all add: countAnswer_def)

lemma fold_countQuestion:
  "fold countQuestion qs (c, i) =
     (c + length (filter (\<lambda>a. isCorrect a = Some True)
            (concat (map (\<lambda>q. case answers q of None \<Rightarrow> [] | Some opts \<Rightarrow> opts) qs))),
      i + length (filter (\<lambda>a. isCorrect a = Some False)
            (concat (map (\<lambda>q. case answers q of None \<Rightarrow> [] | Some opts \<Rightarrow> opts) qs))))"
proof (induction qs arbitrary: c i)
  case Nil
  show ?case by simp
next
  case (Cons q qs)
  show ?case
  proof (cases "answers q")
    case None
    then show ?thesis using Cons.IH by (simp add: countQuestion_def)
  next
    case (Some opts)
    then show ?thesis using Cons.IH by (simp add: countQuestion_def fold_countAnswer)
  qed
qed

lemma correctResponses_count:
  "correctResponses qs = length (filter (\<lambda>a. isCorrect a = Some True) (embeddedOptions qs))"
  by (simp add: correctResponses_def responseCounts_def fold_countQuestion embeddedOptions_def)

lemma incorrectResponses_count:
  "incorrectResponses qs = length (filter (\<lambda>a. isCorrect a = Some False) (embeddedOptions qs))"
  by (simp add: incorrectResponses_def responseCounts_def fold_countQuestion embeddedOptions_def)

lemma three_way_count:
  "length (filter (\<lambda>a. isCorrect a = Some True) opts)
     + length (filter (\<lambda>a. isCorrect a = Some False) opts)
     + length (filter (\<lambda>a. isCorrect a = None) opts) = length opts"
proof (induction opts)
  case Nil
  show ?case by simp
next
  case (Cons a opts)
  then show ?case by (cases "isCorrect a") auto
qed

lemma filter_nonempty_length: "x \<in> set xs \<Longrightarrow> P x \<Longrightarrow> 0 < length (filter P xs)"
  by (induction xs) auto

text \<open>
  Claim C1. The two outputs of the response distribution add up to the total of the
  answered counters, for every list of questions and whatever the rounding gives: the
  number of correct responses is \<^verbatim>\<open>Math.round((correct / rawTotal) * totalAnswered)\<close>,
  computed in doubles, when \<open>rawTotal > 0\<close> and \<open>0\<close> otherwise, and the number of
  incorrect ones is the rest of \<open>totalAnswered\<close>. The product that is rounded is within
  \<open>2 ^ - 51\<close> of the exact number, relatively.
\<close>

theorem distribution_sums_to_totalAnswered:
  "finalCorrectResponses qs + finalIncorrectResponses qs = int (totalAnswered qs)
   \<and> finalIncorrectResponses qs = int (totalAnswered qs) - finalCorrectResponses qs
   \<and> finalCorrectResponses qs =
       (if totalAnsweredFromInputs qs > 0
        then Math_round
               (mul_double
                  (div_double (of_nat (correctResponses qs)) (of_nat (totalAnsweredFromInputs qs)))
                  (of_nat (totalAnswered qs)))
        else 0)
   \<and> \<bar>mul_double
         (div_double (of_nat (correctResponses qs)) (of_nat (totalAnsweredFromInputs qs)))
         (of_nat (totalAnswered qs))
       - (of_nat (correctResponses qs) / of_nat (totalAnsweredFromInputs qs))
           * of_nat (totalAnswered qs)\<bar>
       \<le> (of_nat (correctResponses qs) / of_nat (totalAnsweredFromInputs qs))
             * of_nat (totalAnswered qs) / 2 ^ 51"
proof -
  have a: "finalCorrectResponses qs + finalIncorrectResponses qs = int (totalAnswered qs)"
    by (simp add: finalIncorrectResponses_def)
  have b: "finalIncorrectResponses qs = int (totalAnswered qs) - finalCorrectResponses qs"
    by (simp add: finalIncorrectResponses_def)
  have c: "finalCorrectResponses qs =
       (if totalAnsweredFromInputs qs > 0
        then Math_round
               (mul_double
                  (div_double (of_nat (correctResponses qs)) (of_nat (totalAnsweredFromInputs qs)))
                  (of_nat (totalAnswered qs)))
        else 0)"
    by (simp add: finalCorrectResponses_def)
  have "(0::rat) \<le> of_nat (totalAnswered qs)" by simp
  from mul_div_double_error[OF this] a b c show ?thesis by blast
qed

text \<open>
  Two examples. An \<open>Input\<close> question with the options true, true, false and 30 answers
  has 20 correct and 10 incorrect responses. With seven options of ten true and 45
  answers the product of the doubles is just below \<open>31.5\<close>, where the exact product is:
  31 correct and 14 incorrect responses.
\<close>

theorem distribution_sums_to_totalAnswered_witness:
  "finalCorrectResponses
     [\<lparr>q_id = ''q1'', question = ''text'', questionType = ''Input'', questionCategory = ''c'',
       questionLevel = ''Beginner'', timesAnswered = Some 30, timesSkipped = None,
       answers = Some (replicate 2 \<lparr>answer = ''a'', isCorrect = Some True\<rparr>
                       @ replicate 1 \<lparr>answer = ''b'', isCorrect = Some False\<rparr>)\<rparr>] = 20
   \<and> finalIncorrectResponses
     [\<lparr>q_id = ''q1'', question = ''text'', questionType = ''Input'', questionCategory = ''c'',
       questionLevel = ''Beginner'', timesAnswered = Some 30, timesSkipped = None,
       answers = Some (replicate 2 \<lparr>answer = ''a'', isCorrect = Some True\<rparr>
                       @ replicate 1 \<lparr>answer = ''b'', isCorrect = Some False\<rparr>)\<rparr>] = 10
   \<and> finalCorrectResponses
     [\<lparr>q_id = ''q1'', question = ''text'', questionType = ''Input'', questionCategory = ''c'',
       questionLevel = ''Beginner'', timesAnswered = Some 45, timesSkipped = None,
       answers = Some (replicate 7 \<lparr>answer = ''a'', isCorrect = Some True\<rparr>
                       @ replicate 3 \<lparr>answer = ''b'', isCorrect = Some False\<rparr>)\<rparr>] = 31
   \<and> finalIncorrectResponses
     [\<lparr>q_id = ''q1'', question = ''text'', questionType = ''Input'', questionCategory = ''c'',
       questionLevel = ''Beginner'', timesAnswered = Some 45, timesSkipped = None,
       answers = Some (replicate 7 \<lparr>answer = ''a'', isCorrect = Some True\<rparr>
                       @ replicate 3 \<lparr>answer = ''b'', isCorrect = Some False\<rparr>)\<rparr>] = 14"
proof -
  let ?ps = "[\<lparr>q_id = ''q1'', question = ''text'', questionType = ''Input'', questionCategory = ''c'',
       questionLevel = ''Beginner'', timesAnswered = Some 30, timesSkipped = None,
       answers = Some (replicate 2 \<lparr>answer = ''a'', isCorrect = Some True\<rparr>
                       @ replicate 1 \<lparr>answer = ''b'', isCorrect = Some False\<rparr>)\<rparr>]"
  let ?qs = "[\<lparr>q_id = ''q1'', question = ''text'', questionType = ''Input'', questionCategory = ''c'',
       questionLevel = ''Beginner'', timesAnswered = Some 45, timesSkipped = None,
       answers = Some (replicate 7 \<lparr>answer = ''a'', isCorrect = Some True\<rparr>
                       @ replicate 3 \<lparr>answer = ''b'', isCorrect = Some False\<rparr>)\<rparr>]"
  have pc: "correctResponses ?ps = 2" and pr: "totalAnsweredFromInputs ?ps = 3"
    by (simp_all add: totalAnsweredFromInputs_def correctResponses_count incorrectResponses_count
        embeddedOptions_def inputQuestionsForPie_def)
  have pt: "totalAnswered ?ps = 30" by (simp add: totalAnswered_def orZero_def)
  have qc: "correctResponses ?qs = 7" and qr: "totalAnsweredFromInputs ?qs = 10"
    by (simp_all add: totalAnsweredFromInputs_def correctResponses_count incorrectResponses_count
        embeddedOptions_def inputQuestionsForPie_def)
  have qt: "totalAnswered ?qs = 45" by (simp add: totalAnswered_def orZero_def)
  have d1: "div_double 2 3 = 6004799503160661 / 2 ^ 53"
    unfolding div_double_def
    by (subst toDouble_eval[where e = "- 1"]) (simp_all add: roundEven_def Let_def floor_rat_numeral)
  have m1: "mul_double (6004799503160661 / 2 ^ 53) 30 = 20"
    unfolding mul_double_def
    by (subst toDouble_eval[where e = 4]) (simp_all add: roundEven_def Let_def floor_rat_numeral)
  have d2: "div_double 7 10 = 3152519739159347 / 2 ^ 52"
    unfolding div_double_def
    by (subst toDouble_eval[where e = "- 1"]) (simp_all add: roundEven_def Let_def floor_rat_numeral)
  have m2: "mul_double (3152519739159347 / 2 ^ 52) 45 = 8866461766385663 / 2 ^ 48"
    unfolding mul_double_def
    by (subst toDouble_eval[where e = 4]) (simp_all add: roundEven_def Let_def floor_rat_numeral)
  have r1: "Math_round 20 = 20" by (simp add: Math_round_def floor_rat_numeral)
  have r2: "Math_round (8866461766385663 / 2 ^ 48) = 31"
    by (simp add: Math_round_def floor_rat_numeral)
  have p: "finalCorrectResponses ?ps = 20"
    using distribution_sums_to_totalAnswered[of ?ps] unfolding pc pr pt
    by (simp only: of_nat_numeral d1 m1 r1) simp
  have q: "finalCorrectResponses ?qs = 31"
    using distribution_sums_to_totalAnswered[of ?qs] unfolding qc qr qt
    by (simp only: of_nat_numeral d2 m2 r2) simp
  have p': "finalIncorrectResponses ?ps = 10"
    using distribution_sums_to_totalAnswered[of ?ps] unfolding p pt by simp
  have q': "finalIncorrectResponses ?qs = 14"
    using distribution_sums_to_totalAnswered[of ?qs] unfolding q qt by simp
  show ?thesis using p p' q q' by simp
qed

text \<open>
  Claim C2, as stated, fails: with no flagged option of an \<open>Input\<close> question the number
  of correct responses is \<open>0\<close>, but the number of incorrect ones is all of
  \<open>totalAnswered\<close>. A multiple-choice question answered five times gives \<open>0\<close> and \<open>5\<close>.
\<close>

theorem zero_rawTotal_counterexample:
  "totalAnsweredFromInputs
     [\<lparr>q_id = ''q1'', question = ''text'', questionType = ''Mcq'', questionCategory = ''c'',
       questionLevel = ''Beginner'', timesAnswered = Some 5, timesSkipped = None,
       answers = None\<rparr>] = 0
   \<and> finalCorrectResponses
     [\<lparr>q_id = ''q1'', question = ''text'', questionType = ''Mcq'', questionCategory = ''c'',
       questionLevel = ''Beginner'', timesAnswered = Some 5, timesSkipped = None,
       answers = None\<rparr>] = 0
   \<and> finalIncorrectResponses
     [\<lparr>q_id = ''q1'', question = ''text'', questionType = ''Mcq'', questionCategory = ''c'',
       questionLevel = ''Beginner'', timesAnswered = Some 5, timesSkipped = None,
       answers = None\<rparr>] = 5"
  by (simp add: finalIncorrectResponses_def finalCorrectResponses_def totalAnsweredFromInputs_def
      correctResponses_def incorrectResponses_def responseCounts_def inputQuestionsForPie_def
      totalAnswered_def orZero_def)

text \<open>
  Claim C2, amended. When the raw counts of the \<open>Input\<close> questions add up to zero, the
  number of correct responses is \<open>0\<close> and the number of incorrect responses is
  \<open>totalAnswered\<close>; both are zero exactly when \<open>totalAnswered\<close> is.
\<close>

theorem zero_rawTotal_all_incorrect:
  assumes "totalAnsweredFromInputs qs = 0"
  shows "finalCorrectResponses qs = 0
         \<and> finalIncorrectResponses qs = int (totalAnswered qs)
         \<and> (finalIncorrectResponses qs = 0 \<longleftrightarrow> totalAnswered qs = 0)"
  using assms by (simp add: finalCorrectResponses_def finalIncorrectResponses_def)

theorem zero_rawTotal_all_incorrect_witness:
  "totalAnsweredFromInputs
     [\<lparr>q_id = ''q1'', question = ''text'', questionType = ''Input'', questionCategory = ''c'',
       questionLevel = ''Beginner'', timesAnswered = Some 7, timesSkipped = Some 2,
       answers = Some []\<rparr>] = 0
   \<and> finalCorrectResponses
     [\<lparr>q_id = ''q1'', question = ''text'', questionType = ''Input'', questionCategory = ''c'',
       questionLevel = ''Beginner'', timesAnswered = Some 7, timesSkipped = Some 2,
       answers = Some []\<rparr>] = 0
   \<and> finalIncorrectResponses
     [\<lparr>q_id = ''q1'', question = ''text'', questionType = ''Input'', questionCategory = ''c'',
       questionLevel = ''Beginner'', timesAnswered = Some 7, timesSkipped = Some 2,
       answers = Some []\<rparr>] = 7"
proof -
  let ?qs = "[\<lparr>q_id = ''q1'', question = ''text'', questionType = ''Input'', questionCategory = ''c'',
       questionLevel = ''Beginner'', timesAnswered = Some 7, timesSkipped = Some 2,
       answers = Some []\<rparr>]"
  have r: "totalAnsweredFromInputs ?qs = 0"
    by (simp add: totalAnsweredFromInputs_def correctResponses_def incorrectResponses_def
        responseCounts_def inputQuestionsForPie_def countQuestion_def)
  have t: "totalAnswered ?qs = 7"
    by (simp add: totalAnswered_def orZero_def)
  show ?thesis
    using zero_rawTotal_all_incorrect[OF r] r t by simp
qed

text \<open>
  Claim C9. An embedded option whose \<open>isCorrect\<close> is neither true nor false adds to
  neither counter: the two counters are the numbers of options of the \<open>Input\<close> questions
  flagged true and flagged false, so together with the unflagged options they make up all
  the embedded options, and one unflagged option makes \<open>rawTotal\<close> strictly smaller than
  the number of embedded options.
\<close>

theorem unflagged_options_not_counted:
  "countAnswer \<lparr>answer = t, isCorrect = None\<rparr> acc = acc
   \<and> correctResponses qs = length (filter (\<lambda>a. isCorrect a = Some True) (embeddedOptions qs))
   \<and> incorrectResponses qs = length (filter (\<lambda>a. isCorrect a = Some False) (embeddedOptions qs))
   \<and> totalAnsweredFromInputs qs + length (filter (\<lambda>a. isCorrect a = None) (embeddedOptions qs))
       = length (embeddedOptions qs)
   \<and> ((\<exists>a \<in> set (embeddedOptions qs). isCorrect a = None)
        \<longrightarrow> totalAnsweredFromInputs qs < length (embeddedOptions qs))"
proof -
  have a: "countAnswer \<lparr>answer = t, isCorrect = None\<rparr> acc = acc"
    by (cases acc) (simp add: countAnswer_def)
  have s: "totalAnsweredFromInputs qs + length (filter (\<lambda>a. isCorrect a = None) (embeddedOptions qs))
             = length (embeddedOptions qs)"
    unfolding totalAnsweredFromInputs_def correctResponses_count incorrectResponses_count
    by (rule three_way_count)
  have "0 < length (filter (\<lambda>a. isCorrect a = None) (embeddedOptions qs))"
    if "\<exists>a \<in> set (embeddedOptions qs). isCorrect a = None"
    using that filter_nonempty_length[of _ "embeddedOptions qs" "\<lambda>a. isCorrect a = None"] by blast
  with s have l: "(\<exists>a \<in> set (embeddedOptions qs). isCorrect a = None)
        \<longrightarrow> totalAnsweredFromInputs qs < length (embeddedOptions qs)"
    by linarith
  show ?thesis
    using a s l correctResponses_count incorrectResponses_count by simp
qed

theorem unflagged_options_not_counted_witness:
  "(\<exists>a \<in> set (embeddedOptions
        [\<lparr>q_id = ''q1'', question = ''text'', questionType = ''Input'', questionCategory = ''c'',
          questionLevel = ''Beginner'', timesAnswered = Some 4, timesSkipped = None,
          answers = Some [\<lparr>answer = ''a'', isCorrect = Some True\<rparr>,
                          \<lparr>answer = ''b'', isCorrect = None\<rparr>]\<rparr>]). isCorrect a = None)
   \<and> length (embeddedOptions
        [\<lparr>q_id = ''q1'', question = ''text'', questionType = ''Input'', questionCategory = ''c'',
          questionLevel = ''Beginner'', timesAnswered = Some 4, timesSkipped = None,
          answers = Some [\<lparr>answer = ''a'', isCorrect = Some True\<rparr>,
                          \<lparr>answer = ''b'', isCorrect = None\<rparr>]\<rparr>]) = 2
   \<and> totalAnsweredFromInputs
        [\<lparr>q_id = ''q1'', question = ''text'', questionType = ''Input'', questionCategory = ''c'',
          questionLevel = ''Beginner'', timesAnswered = Some 4, timesSkipped = None,
          answers = Some [\<lparr>answer = ''a'', isCorrect = Some True\<rparr>,
                          \<lparr>answer = ''b'', isCorrect = None\<rparr>]\<rparr>] = 1"
proof -
  let ?qs = "[\<lparr>q_id = ''q1'', question = ''text'', questionType = ''Input'', questionCategory = ''c'',
          questionLevel = ''Beginner'', timesAnswered = Some 4, timesSkipped = None,
          answers = Some [\<lparr>answer = ''a'', isCorrect = Some True\<rparr>,
                          \<lparr>answer = ''b'', isCorrect = None\<rparr>]\<rparr>]"
  have e: "embeddedOptions ?qs = [\<lparr>answer = ''a'', isCorrect = Some True\<rparr>, \<lparr>answer = ''b'', isCorrect = None\<rparr>]"
    by (simp add: embeddedOptions_def inputQuestionsForPie_def)
  have "totalAnsweredFromInputs ?qs + 1 = 2"
    using unflagged_options_not_counted[of "''b''" "(0, 0)" ?qs] unfolding e by simp
  then show ?thesis unfolding e by simp
qed

section \<open>Answers per level\<close>

lemma levelAnswerCounts_sum_aux:
  "sum_list (map (\<lambda>level. sum_list (map f (filter (\<lambda>q. questionLevel q = level) qs))) LEVELS)
     = sum_list (map f (filter (\<lambda>q. questionLevel q \<in> set LEVELS) qs))"
  for f :: "Question \<Rightarrow> nat"
  by (induction qs) (auto simp: LEVELS_def)

text \<open>
  Claim C8. The answer counts per level are three numbers in the order of the fixed
  enumeration Beginner, Intermediate, Advanced; each is the sum of \<open>timesAnswered\<close> over
  the questions whose level is exactly that level, and their sum is \<open>totalAnswered\<close> of the
  questions with one of the three levels.
\<close>

theorem levelAnswerCounts_fixed_order:
  "length (levelAnswerCounts qs) = 3
   \<and> LEVELS = [''Beginner'', ''Intermediate'', ''Advanced'']
   \<and> levelAnswerCounts qs =
       [sum_list (map (\<lambda>q. orZero (timesAnswered q)) (filter (\<lambda>q. questionLevel q = ''Beginner'') qs)),
        sum_list (map (\<lambda>q. orZero (timesAnswered q)) (filter (\<lambda>q. questionLevel q = ''Intermediate'') qs)),
        sum_list (map (\<lambda>q. orZero (timesAnswered q)) (filter (\<lambda>q. questionLevel q = ''Advanced'') qs))]
   \<and> sum_list (levelAnswerCounts qs)
       = totalAnswered (filter (\<lambda>q. questionLevel q \<in> set LEVELS) qs)"
proof -
  have a: "levelAnswerCounts qs
             = map (\<lambda>level. sum_list (map (\<lambda>q. orZero (timesAnswered q))
                                        (filter (\<lambda>q. questionLevel q = level) qs))) LEVELS"
    by (simp add: levelAnswerCounts_def foldl_add_sum_list)
  have b: "sum_list (levelAnswerCounts qs)
             = totalAnswered (filter (\<lambda>q. questionLevel q \<in> set LEVELS) qs)"
    unfolding a totalAnswered_sum by (rule levelAnswerCounts_sum_aux)
  show ?thesis using b by (simp add: a LEVELS_def)
qed

section \<open>Skip rates\<close>







section \<open>The ranking of the most skipped questions\<close>















section \<open>Fetching and the view\<close>

text \<open>\<open>includes_js\<close> is the contiguous sublist relation of the library.\<close>

lemma includes_js_sublist: "includes_js s pat \<longleftrightarrow> sublist pat s"
  by (induction s) (auto simp: sublist_Cons_right)

lemma render_handleRefresh_Rejected:
  "render (handleRefresh (Rejected message) s) =
     (if isEmptySignal message then EmptyView
      else (case message of Some m \<Rightarrow> if m \<noteq> [] then ErrorView m else ReadyView
                          | None \<Rightarrow> ReadyView))"
  by (simp add: handleRefresh_def render_def Let_def split: option.splits)

lemma render_fetchData_Rejected:
  "render (fetchData (Rejected message) s) =
     (if isEmptySignal message then EmptyView
      else (case message of Some m \<Rightarrow> if m \<noteq> [] then ErrorView m else ReadyView
                          | None \<Rightarrow> ReadyView))"
  by (simp add: fetchData_def render_def Let_def split: option.splits)

lemma render_handleRefresh_Resolved:
  "render (handleRefresh (Resolved qs as) s) = (if qs = [] then EmptyView else ReadyView)"
  by (simp add: handleRefresh_def render_def Let_def)

lemma render_fetchData_Resolved:
  "render (fetchData (Resolved qs as) s) = (if qs = [] then EmptyView else ReadyView)"
  by (simp add: fetchData_def render_def Let_def)

text \<open>
  Claim C3, as stated, fails: the marker that the page looks for is \<open>No questions\<close> with
  a capital letter, and the search is case-sensitive. A failure with the message
  \<open>no questions found\<close> contains the marker of the claim and ends in the error state.
\<close>

theorem lowercase_marker_counterexample:
  "includes_js ''no questions found'' ''no questions''
   \<and> render (handleRefresh (Rejected (Some ''no questions found'')) (initialPageState :: unit PageState))
       = ErrorView ''no questions found''
   \<and> render (fetchData (Rejected (Some ''no questions found'')) (initialPageState :: unit PageState))
       = ErrorView ''no questions found''"
  by (simp add: render_handleRefresh_Rejected render_fetchData_Rejected isEmptySignal_def)

text \<open>
  Claim C3, amended. A failed fetch whose message contains \<open>404\<close>, \<open>No questions\<close>
  (with this capitalisation) or \<open>empty\<close> ends in the empty state, not in the error
  state, after a refresh as after the first fetch; the questions are then cleared. The
  message \<open>404 no questions found\<close> is such a message, by its \<open>404\<close>.
\<close>

theorem empty_signal_routes_to_empty:
  assumes "includes_js m ''404'' \<or> includes_js m ''No questions'' \<or> includes_js m ''empty''"
  shows "render (handleRefresh (Rejected (Some m)) s) = EmptyView
         \<and> render (fetchData (Rejected (Some m)) s) = EmptyView
         \<and> questions (handleRefresh (Rejected (Some m)) s) = []
         \<and> questions (fetchData (Rejected (Some m)) s) = []"
proof -
  have e: "isEmptySignal (Some m)" using assms by (simp add: isEmptySignal_def)
  have q1: "questions (handleRefresh (Rejected (Some m)) s) = []"
    using e by (simp add: handleRefresh_def Let_def)
  have q2: "questions (fetchData (Rejected (Some m)) s) = []"
    using e by (simp add: fetchData_def Let_def)
  show ?thesis
    using e q1 q2 by (simp add: render_handleRefresh_Rejected render_fetchData_Rejected)
qed

theorem empty_signal_routes_to_empty_witness:
  "includes_js ''404 no questions found'' ''404''
   \<and> render (handleRefresh (Rejected (Some ''404 no questions found'')) (initialPageState :: unit PageState))
       = EmptyView
   \<and> render (fetchData (Rejected (Some ''404 no questions found'')) (initialPageState :: unit PageState))
       = EmptyView"
proof -
  have i: "includes_js ''404 no questions found'' ''404''" by simp
  then have "includes_js ''404 no questions found'' ''404''
             \<or> includes_js ''404 no questions found'' ''No questions''
             \<or> includes_js ''404 no questions found'' ''empty''"
    by (rule disjI1)
  from empty_signal_routes_to_empty[OF this, of "initialPageState :: unit PageState"] i
  show ?thesis by blast
qed

text \<open>
  Claim C4. A fetch that succeeds with no question ends in the empty state, after a
  refresh as after the first fetch. The empty flag comes before the error message: a
  state that is not loading and has the flag set renders the empty view whatever its
  error message is, and the error view is rendered only with the flag unset.
\<close>

theorem empty_fetch_is_empty_state:
  "render (handleRefresh (Resolved [] as) s) = EmptyView
   \<and> render (fetchData (Resolved [] as) s) = EmptyView
   \<and> (\<not> loading t \<and> isEmpty t \<longrightarrow> render t = EmptyView)
   \<and> (render t = ErrorView m \<longrightarrow> \<not> isEmpty t \<and> err t = Some m)"
proof -
  have a: "\<not> loading t \<and> isEmpty t \<longrightarrow> render t = EmptyView"
    by (simp add: render_def)
  have b: "render t = ErrorView m \<longrightarrow> \<not> isEmpty t \<and> err t = Some m"
    by (auto simp: render_def split: if_splits option.splits)
  show ?thesis
    using a b by (simp add: render_handleRefresh_Resolved render_fetchData_Resolved)
qed

text \<open>
  A state with the flag and a message, as a failure with \<open>404\<close> leaves it, and a state
  that renders the error view.
\<close>

theorem empty_fetch_is_empty_state_witness:
  "render (\<lparr>questions = [], submittedAnswers = [], loading = False,
            err = Some noQuestionsMessage, isEmpty = True\<rparr> :: unit PageState) = EmptyView
   \<and> render (handleRefresh (Resolved [] []) (initialPageState :: unit PageState)) = EmptyView
   \<and> render (\<lparr>questions = [], submittedAnswers = [], loading = False,
              err = Some ''Network error'', isEmpty = False\<rparr> :: unit PageState)
       = ErrorView ''Network error''"
proof -
  let ?t = "\<lparr>questions = [], submittedAnswers = [], loading = False,
            err = Some noQuestionsMessage, isEmpty = True\<rparr> :: unit PageState"
  let ?u = "\<lparr>questions = [], submittedAnswers = [], loading = False,
              err = Some ''Network error'', isEmpty = False\<rparr> :: unit PageState"
  have h: "\<not> loading ?t \<and> isEmpty ?t" by simp
  have u: "render ?u = ErrorView ''Network error''" by (simp add: render_def)
  from empty_fetch_is_empty_state[of "[]" "initialPageState :: unit PageState" ?t] h u
  show ?thesis by blast
qed

section \<open>Survey builder: the working set\<close>

lemma removeAt_take_drop: "removeAt i xs = take i xs @ drop (Suc i) xs"
proof -
  have "map snd (filter (\<lambda>(j, _). j \<noteq> i) (enumerate n xs)) = take (i - n) xs @ drop (Suc i - n) xs"
    if "n \<le> i" for n
    using that
  proof (induction xs arbitrary: n)
    case Nil
    show ?case by simp
  next
    case (Cons x xs)
    show ?case
    proof (cases "n = i")
      case True
      have "filter (\<lambda>(j, _). j \<noteq> i) (enumerate (Suc i) xs) = enumerate (Suc i) xs"
        by (rule filter_True) (auto simp: in_set_enumerate_eq)
      then show ?thesis using True by simp
    next
      case False
      then have lt: "Suc n \<le> i" using Cons.prems by simp
      then have d: "i - n = Suc (i - Suc n)" and d': "Suc i - n = Suc (Suc i - Suc n)" by simp_all
      show ?thesis using False Cons.IH[OF lt] unfolding d d' by simp
    qed
  qed
  from this[of 0] show ?thesis by (simp add: removeAt_def)
qed

lemma length_removeAt: "i < length xs \<Longrightarrow> length (removeAt i xs) = length xs - 1"
  by (simp add: removeAt_take_drop)

lemma everyLevelHasEntry_iff: "everyLevelHasEntry m \<longleftrightarrow> (\<forall>lvl. m lvl \<noteq> [])"
proof
  assume "everyLevelHasEntry m"
  then have a: "m Beginner \<noteq> [] \<and> m Intermediate \<noteq> [] \<and> m Advanced \<noteq> []"
    by (simp add: everyLevelHasEntry_def SURVEY_LEVELS_def)
  show "\<forall>lvl. m lvl \<noteq> []"
  proof
    fix lvl show "m lvl \<noteq> []" using a by (cases lvl) simp_all
  qed
next
  assume "\<forall>lvl. m lvl \<noteq> []"
  then show "everyLevelHasEntry m" by (simp add: everyLevelHasEntry_def list_all_iff)
qed

lemma asLevel_levelName: "asLevel (levelName lvl) = Some lvl"
  by (cases lvl) (simp_all add: asLevel_def SURVEY_LEVELS_def)

lemma initEffect_entries:
  "\<not> showUIImmediately s \<Longrightarrow> questionsByLevel (initEffect s) lvl = [placeholder lvl]"
  by (cases lvl) (simp_all add: initEffect_def SURVEY_LEVELS_def)

lemma populateEffect_invariant:
  assumes "showUIImmediately s" and "fetched \<noteq> []"
  shows "everyLevelHasEntry (questionsByLevel (populateEffect fetched s))"
proof -
  define map1 where "map1 = foldl (\<lambda>m q. case asLevel (questionLevel q) of
                                   Some lvl \<Rightarrow> m(lvl := m lvl @ [q])
                                 | None \<Rightarrow> m)
                         emptyMap fetched"
  have "questionsByLevel (populateEffect fetched s)
          = foldl (\<lambda>m lvl. if length (m lvl) = 0 then m(lvl := m lvl @ [placeholder lvl]) else m)
                         map1 SURVEY_LEVELS"
    using assms by (simp add: populateEffect_def Let_def map1_def)
  then show ?thesis
    by (simp add: everyLevelHasEntry_def SURVEY_LEVELS_def)
qed

lemma onDeleteCurrent_invariant:
  assumes "everyLevelHasEntry (questionsByLevel s)" and "onDeleteCurrent s = Inr (s', calls)"
  shows "everyLevelHasEntry (questionsByLevel s')"
proof (cases "length (questionsByLevel s (currentTab s)) \<le> 1")
  case True
  then have "s' = s" using assms(2) by (simp add: onDeleteCurrent_def Let_def)
  then show ?thesis using assms(1) by simp
next
  case False
  let ?list = "questionsByLevel s (currentTab s)"
  have inr: "currentIndex s < length ?list"
    using assms(2) False by (auto simp: onDeleteCurrent_def Let_def split: if_splits)
  have q: "questionsByLevel s' = (questionsByLevel s)(currentTab s := removeAt (currentIndex s) ?list)"
    using assms(2) False inr by (auto simp: onDeleteCurrent_def Let_def split: if_splits)
  have "length (removeAt (currentIndex s) ?list) = length ?list - 1"
    using inr by (rule length_removeAt)
  then have "removeAt (currentIndex s) ?list \<noteq> []" using False by auto
  then show ?thesis using assms(1) unfolding q everyLevelHasEntry_iff by simp
qed

lemma confirmDeleteAllQuestions_invariant:
  assumes "everyLevelHasEntry (questionsByLevel s)"
  shows "everyLevelHasEntry (questionsByLevel (fst (confirmDeleteAllQuestions s)))"
  using assms unfolding everyLevelHasEntry_iff
  by (simp add: confirmDeleteAllQuestions_def Let_def)

lemma onUpdateQuestion_field_invariant:
  assumes "everyLevelHasEntry (questionsByLevel s)"
    and "onUpdateQuestion field v s = Some s'"
    and "field \<noteq> F_questionLevel \<or> asLevel v = None"
  shows "everyLevelHasEntry (questionsByLevel s')"
proof -
  let ?list = "questionsByLevel s (currentTab s)"
  have n: "(if field = F_questionLevel then asLevel v else None) = None"
    using assms(3) by auto
  have inr: "currentIndex s < length ?list"
    using assms(2) by (auto simp: onUpdateQuestion_def Let_def split: if_splits)
  have "questionsByLevel s'
          = (questionsByLevel s)(currentTab s := ?list[currentIndex s := setField field v (?list ! currentIndex s)])"
    using assms(2) inr by (auto simp: onUpdateQuestion_def Let_def n)
  then show ?thesis using assms(1) unfolding everyLevelHasEntry_iff by simp
qed

lemma onUpdateQuestion_level_invariant:
  assumes "everyLevelHasEntry (questionsByLevel s)"
    and "onUpdateQuestion F_questionLevel v s = Some s'"
    and "2 \<le> length (questionsByLevel s (currentTab s))"
  shows "everyLevelHasEntry (questionsByLevel s')"
proof (cases "asLevel v")
  case None
  then show ?thesis using assms(1,2) onUpdateQuestion_field_invariant by blast
next
  case (Some newLevel)
  let ?list = "questionsByLevel s (currentTab s)"
  have inr: "currentIndex s < length ?list"
    using assms(2) by (auto simp: onUpdateQuestion_def Let_def split: if_splits)
  have q: "questionsByLevel s'
          = ((questionsByLevel s)(currentTab s := removeAt (currentIndex s) ?list))
              (newLevel := questionsByLevel s newLevel @ [(?list ! currentIndex s)\<lparr>questionLevel := levelName newLevel\<rparr>])"
    using assms(2) inr Some by (auto simp: onUpdateQuestion_def Let_def)
  have "length (removeAt (currentIndex s) ?list) = length ?list - 1"
    using inr by (rule length_removeAt)
  then have "removeAt (currentIndex s) ?list \<noteq> []" using assms(3) by auto
  then show ?thesis using assms(1) unfolding q everyLevelHasEntry_iff by simp
qed

text \<open>
  Claim C5 fails in the code at the reassignment of a level. The handler removes the
  question from the list of its level and appends it to the list of the new level; it
  has no check like the one of \<open>onDeleteCurrent\<close> and adds no placeholder. From the
  working set that the page starts with, one placeholder at each level, moving the
  Beginner entry to Intermediate leaves Beginner without an entry.
\<close>

theorem level_reassignment_empties_level:
  "everyLevelHasEntry (questionsByLevel (initEffect initialSurveyState))
   \<and> map_option (\<lambda>s. questionsByLevel s Beginner)
        (onUpdateQuestion F_questionLevel ''Intermediate'' (initEffect initialSurveyState)) = Some []
   \<and> map_option (\<lambda>s. map q_id (questionsByLevel s Intermediate))
        (onUpdateQuestion F_questionLevel ''Intermediate'' (initEffect initialSurveyState))
       = Some [[], []]
   \<and> map_option (\<lambda>s. everyLevelHasEntry (questionsByLevel s))
        (onUpdateQuestion F_questionLevel ''Intermediate'' (initEffect initialSurveyState)) = Some False"
proof -
  let ?s = "initEffect initialSurveyState"
  have u: "\<not> showUIImmediately initialSurveyState" by (simp add: initialSurveyState_def)
  have q: "questionsByLevel ?s lvl = [placeholder lvl]" for lvl
    using u by (rule initEffect_entries)
  have t: "currentTab ?s = Beginner" and i: "currentIndex ?s = 0"
    by (simp_all add: initEffect_def initialSurveyState_def)
  have l: "asLevel ''Intermediate'' = Some Intermediate"
    using asLevel_levelName[of Intermediate] by simp
  have inv: "everyLevelHasEntry (questionsByLevel ?s)"
    unfolding everyLevelHasEntry_iff by (simp add: q)
  have r: "removeAt 0 [placeholder Beginner] = []" by (simp add: removeAt_take_drop)
  have "onUpdateQuestion F_questionLevel ''Intermediate'' ?s
          = Some (?s\<lparr>questionsByLevel :=
                       ((questionsByLevel ?s)(Beginner := []))
                         (Intermediate := [placeholder Intermediate,
                                           (placeholder Beginner)\<lparr>questionLevel := ''Intermediate''\<rparr>]),
                     currentTab := Intermediate, currentIndex := 1\<rparr>)"
    by (simp add: onUpdateQuestion_def Let_def q t i l r)
  then show ?thesis
    using inv by (simp add: everyLevelHasEntry_def SURVEY_LEVELS_def placeholder_def)
qed

section \<open>Survey builder: what is submitted\<close>

lemma trim_Nil_iff: "trim s = [] \<longleftrightarrow> (\<forall>c \<in> set s. isWhiteSpace c)"
proof -
  have "trim s = [] \<longleftrightarrow> dropWhile isWhiteSpace (rev (dropWhile isWhiteSpace s)) = []"
    by (simp add: trim_def)
  also have "\<dots> \<longleftrightarrow> (\<forall>c \<in> set (dropWhile isWhiteSpace s). isWhiteSpace c)"
    by (simp add: dropWhile_eq_Nil_conv)
  also have "\<dots> \<longleftrightarrow> (\<forall>c \<in> set s. isWhiteSpace c)"
  proof
    assume a: "\<forall>c \<in> set (dropWhile isWhiteSpace s). isWhiteSpace c"
    have "dropWhile isWhiteSpace s = []"
    proof (rule ccontr)
      assume "dropWhile isWhiteSpace s \<noteq> []"
      then have "\<not> isWhiteSpace (hd (dropWhile isWhiteSpace s))"
        and "hd (dropWhile isWhiteSpace s) \<in> set (dropWhile isWhiteSpace s)"
        by (simp_all add: hd_dropWhile)
      with a show False by blast
    qed
    then show "\<forall>c \<in> set s. isWhiteSpace c" by (simp add: dropWhile_eq_Nil_conv)
  next
    assume "\<forall>c \<in> set s. isWhiteSpace c"
    then show "\<forall>c \<in> set (dropWhile isWhiteSpace s). isWhiteSpace c"
      using set_dropWhileD by fastforce
  qed
  finally show ?thesis .
qed

lemma placeholder_incomplete: "\<not> isComplete (placeholder lvl)"
  by (simp add: isComplete_def placeholder_def trim_def)

text \<open>
  Claim C10. The batch create and the batch update pass to the persistence service only
  questions of the working set whose text has a character that is not white space and
  whose category and level are not empty. No placeholder is among them.
\<close>

theorem only_complete_questions_submitted:
  assumes "call \<in> set (handleCreateNew confirmed s @ handleUpdate confirmed' s)"
    and "q \<in> set (callArgument call)"
  shows "trim (question q) \<noteq> []
         \<and> (\<exists>c \<in> set (question q). \<not> isWhiteSpace c)
         \<and> questionCategory q \<noteq> [] \<and> questionLevel q \<noteq> []
         \<and> q \<in> set (concat (map (questionsByLevel s) SURVEY_LEVELS))
         \<and> q \<noteq> placeholder lvl"
proof -
  let ?all = "filter isComplete (concat (map (questionsByLevel s) SURVEY_LEVELS))"
  have "callArgument call = ?all"
    using assms(1) by (auto simp: handleCreateNew_def handleUpdate_def Let_def split: if_splits)
  then have m: "q \<in> set (concat (map (questionsByLevel s) SURVEY_LEVELS))" and c: "isComplete q"
    using assms(2) by simp_all
  have t: "trim (question q) \<noteq> []" using c by (simp add: isComplete_def)
  then have w: "\<exists>c \<in> set (question q). \<not> isWhiteSpace c" by (simp add: trim_Nil_iff)
  have p: "q \<noteq> placeholder lvl" using c placeholder_incomplete by blast
  show ?thesis using t w m p c by (simp add: isComplete_def)
qed

text \<open>
  A working set with a placeholder, a complete question and a question whose text is
  blank at the first level: only the complete question is created.
\<close>

theorem only_complete_questions_submitted_witness:
  "handleCreateNew True
     \<lparr>questionsByLevel =
        (\<lambda>lvl. [placeholder lvl])
          (Beginner := [placeholder Beginner,
                        exampleQuestion ''What is sandhi?'' ''Input'' 0 0,
                        exampleQuestion ''   '' ''Input'' 0 0]),
      currentTab = Beginner, currentIndex = 0, levelToDelete = Beginner,
      showDeleteDialog = False, showUIImmediately = True\<rparr>
     = [CreateQuestions [exampleQuestion ''What is sandhi?'' ''Input'' 0 0]]
   \<and> trim (question (exampleQuestion ''What is sandhi?'' ''Input'' 0 0)) \<noteq> []
   \<and> exampleQuestion ''What is sandhi?'' ''Input'' 0 0 \<noteq> placeholder Beginner"
proof -
  let ?q = "exampleQuestion ''What is sandhi?'' ''Input'' 0 0"
  let ?s = "\<lparr>questionsByLevel =
        (\<lambda>lvl. [placeholder lvl])
          (Beginner := [placeholder Beginner, ?q, exampleQuestion ''   '' ''Input'' 0 0]),
      currentTab = Beginner, currentIndex = 0, levelToDelete = Beginner,
      showDeleteDialog = False, showUIImmediately = True\<rparr>"
  have c1: "isComplete ?q"
    by (simp add: isComplete_def exampleQuestion_def trim_def isWhiteSpace_def)
  have c2: "\<not> isComplete (exampleQuestion ''   '' ''Input'' 0 0)"
    by (simp add: isComplete_def exampleQuestion_def trim_def isWhiteSpace_def)
  have h: "handleCreateNew True ?s = [CreateQuestions [?q]]"
    by (simp add: handleCreateNew_def SURVEY_LEVELS_def c1 c2 placeholder_incomplete)
  have m: "CreateQuestions [?q] \<in> set (handleCreateNew True ?s @ handleUpdate False ?s)"
    unfolding h by simp
  have a: "?q \<in> set (callArgument (CreateQuestions [?q]))" by simp
  from only_complete_questions_submitted[OF m a, of Beginner] h
  show ?thesis by blast
qed



end
